theory Spec2Isabelle
  imports Complex_Main "HOL-Library.Word" "HOL-Library.Sublist"
begin

section \<open>JavaScript strings\<close>

text \<open>
  A JavaScript string is a sequence of 16-bit UTF-16 code units. \<open>js\<close> embeds an ASCII
  literal of the source, one code unit per character.
\<close>

type_synonym cu = "16 word"
type_synonym jstring = "cu list"

definition js :: "string \<Rightarrow> jstring" where
  "js s = map (\<lambda>c. of_nat (of_char c)) s"

section \<open>Regular expressions and \<open>isValidEmail\<close>\<close>

text \<open>
  The pattern of \<open>isValidEmail\<close> is \<^verbatim>\<open>/^[^\s@]+@[^\s@]+\.[^\s@]+$/\<close>, with no flags. It
  uses character classes, literals, the quantifier \<open>+\<close> and sequencing, between the anchors
  \<open>^\<close> and \<open>$\<close>, which (without the \<open>m\<close> flag) tie a match to the whole input. A pattern is a
  value of \<open>rx\<close>; \<open>test_anchored r s\<close> is \<open>/^r$/.test(s)\<close>, computed by derivatives.
\<close>

datatype rx =
    Never
  | Empty
  | Class "cu \<Rightarrow> bool"
  | Seq rx rx
  | Alt rx rx
  | Star rx

definition Plus :: "rx \<Rightarrow> rx" where
  "Plus r = Seq r (Star r)"

fun nullable :: "rx \<Rightarrow> bool" where
  "nullable Never = False"
| "nullable Empty = True"
| "nullable (Class p) = False"
| "nullable (Seq r s) = (nullable r \<and> nullable s)"
| "nullable (Alt r s) = (nullable r \<or> nullable s)"
| "nullable (Star r) = True"

fun deriv :: "cu \<Rightarrow> rx \<Rightarrow> rx" where
  "deriv c Never = Never"
| "deriv c Empty = Never"
| "deriv c (Class p) = (if p c then Empty else Never)"
| "deriv c (Seq r s) =
     (if nullable r then Alt (Seq (deriv c r) s) (deriv c s) else Seq (deriv c r) s)"
| "deriv c (Alt r s) = Alt (deriv c r) (deriv c s)"
| "deriv c (Star r) = Seq (deriv c r) (Star r)"

fun test_anchored :: "rx \<Rightarrow> jstring \<Rightarrow> bool" where
  "test_anchored r [] = nullable r"
| "test_anchored r (c # cs) = test_anchored (deriv c r) cs"

text \<open>
  The class \<open>\s\<close> of ECMAScript: the WhiteSpace and LineTerminator code points (tab, line
  feed, vertical tab, form feed, carriage return, space, no-break space, U+1680,
  U+2000 to U+200A, U+2028, U+2029, U+202F, U+205F, U+3000 and U+FEFF).
\<close>

definition is_space :: "cu \<Rightarrow> bool" where
  "is_space c =
     (c = 0x09 \<or> c = 0x0A \<or> c = 0x0B \<or> c = 0x0C \<or> c = 0x0D \<or> c = 0x20 \<or> c = 0xA0 \<or>
      c = 0x1680 \<or> (0x2000 \<le> c \<and> c \<le> 0x200A) \<or> c = 0x2028 \<or> c = 0x2029 \<or>
      c = 0x202F \<or> c = 0x205F \<or> c = 0x3000 \<or> c = 0xFEFF)"

text \<open>\<open>[^\s@]\<close>: any code unit that is neither white space nor \<open>@\<close> (0x40).\<close>

definition not_space_at :: "cu \<Rightarrow> bool" where
  "not_space_at c = (\<not> is_space c \<and> c \<noteq> 0x40)"

definition emailRegex :: rx where
  "emailRegex =
     Seq (Plus (Class not_space_at))
       (Seq (Class (\<lambda>c. c = 0x40))
         (Seq (Plus (Class not_space_at))
           (Seq (Class (\<lambda>c. c = 0x2E))
             (Plus (Class not_space_at)))))"

definition isValidEmail :: "jstring \<Rightarrow> bool" where
  "isValidEmail email = test_anchored emailRegex email"

text \<open>The meaning of a pattern: the set of strings it matches as a whole.\<close>

inductive_set star :: "jstring set \<Rightarrow> jstring set" for A :: "jstring set" where
  star_nil: "[] \<in> star A"
| star_app: "u \<in> A \<Longrightarrow> v \<in> star A \<Longrightarrow> u @ v \<in> star A"

fun lang :: "rx \<Rightarrow> jstring set" where
  "lang Never = {}"
| "lang Empty = {[]}"
| "lang (Class p) = {[c] | c. p c}"
| "lang (Seq r s) = {u @ v | u v. u \<in> lang r \<and> v \<in> lang s}"
| "lang (Alt r s) = lang r \<union> lang s"
| "lang (Star r) = star (lang r)"

text \<open>
  The two readings of "local-part@domain" that \<open>isValidEmail\<close> is compared with. Both split
  the string at its first \<open>@\<close>, want a local part that is not empty, no further \<open>@\<close> and no
  white space anywhere. \<open>claimed_email_shape\<close> follows the specification's words: the
  domain contains a dot. \<open>accepted_email_shape\<close> wants a dot of the domain that is neither
  its first nor its last character.
\<close>

definition claimed_email_shape :: "jstring \<Rightarrow> bool" where
  "claimed_email_shape s =
     (let l = takeWhile (\<lambda>c. c \<noteq> 0x40) s; r = dropWhile (\<lambda>c. c \<noteq> 0x40) s
      in l \<noteq> [] \<and> r \<noteq> [] \<and> 0x40 \<notin> set (tl r) \<and> \<not> list_ex is_space s \<and>
         0x2E \<in> set (tl r))"

definition accepted_email_shape :: "jstring \<Rightarrow> bool" where
  "accepted_email_shape s =
     (let l = takeWhile (\<lambda>c. c \<noteq> 0x40) s; r = dropWhile (\<lambda>c. c \<noteq> 0x40) s
      in l \<noteq> [] \<and> r \<noteq> [] \<and> 0x40 \<notin> set (tl r) \<and> \<not> list_ex is_space s \<and>
         0x2E \<in> set (tl (butlast (tl r))))"

section \<open>The document\<close>

text \<open>
  The page is the list of its elements in document order, which is the order of
  \<open>querySelectorAll\<close>; an element is known by its position in that list. An element carries
  what the script reads and writes: its tag, its \<open>id\<close> and \<open>href\<close> attributes (\<open>None\<close> when
  the attribute is absent, as \<open>getAttribute\<close> returns \<open>null\<close>), its class tokens, the top
  edge of its bounding rectangle, its text content, its \<open>style.display\<close>, and the positions
  of its ancestors.
\<close>

record element =
  localName :: jstring
  idAttr :: "jstring option"
  hrefAttr :: "jstring option"
  classList :: "jstring list"
  rect_top :: real
  textContent :: jstring
  style_display :: jstring
  ancestors :: "nat list"

type_synonym document = "element list"

definition querySelectorAll :: "(document \<Rightarrow> element \<Rightarrow> bool) \<Rightarrow> document \<Rightarrow> nat list" where
  "querySelectorAll sel d = filter (\<lambda>i. sel d (d ! i)) [0..<length d]"

text \<open>
  \<open>getElementById\<close>: the first element in document order with that id; an empty
  \<open>id\<close> attribute gives an element no id, so the empty string finds nothing.
\<close>

definition getElementById :: "document \<Rightarrow> jstring \<Rightarrow> nat option" where
  "getElementById d s =
     (if s = [] then None else find (\<lambda>i. idAttr (d ! i) = Some s) [0..<length d])"

definition update_element :: "nat \<Rightarrow> (element \<Rightarrow> element) \<Rightarrow> document \<Rightarrow> document" where
  "update_element i f d = d[i := f (d ! i)]"

text \<open>\<open>DOMTokenList\<close>: \<open>remove\<close> takes the token out, \<open>add\<close> appends it when it is absent.\<close>

definition token_remove :: "jstring \<Rightarrow> jstring list \<Rightarrow> jstring list" where
  "token_remove tok ts = removeAll tok ts"

definition token_add :: "jstring \<Rightarrow> jstring list \<Rightarrow> jstring list" where
  "token_add tok ts = (if tok \<in> set ts then ts else ts @ [tok])"

definition classList_remove :: "jstring \<Rightarrow> element \<Rightarrow> element" where
  "classList_remove tok e = e\<lparr>classList := token_remove tok (classList e)\<rparr>"

definition classList_add :: "jstring \<Rightarrow> element \<Rightarrow> element" where
  "classList_add tok e = e\<lparr>classList := token_add tok (classList e)\<rparr>"

definition is_active :: "element \<Rightarrow> bool" where
  "is_active e = (js ''active'' \<in> set (classList e))"

text \<open>The selectors of the script.\<close>

definition sel_nav_item :: "document \<Rightarrow> element \<Rightarrow> bool" where
  \<comment> \<open>\<^verbatim>\<open>.list-group-item-action\<close>\<close>
  "sel_nav_item d e = (js ''list-group-item-action'' \<in> set (classList e))"

definition sel_hash_link :: "document \<Rightarrow> element \<Rightarrow> bool" where
  \<comment> \<open>\<^verbatim>\<open>a[href^="#"]\<close>\<close>
  "sel_hash_link d e =
     (localName e = js ''a'' \<and> (case hrefAttr e of Some (c # cs) \<Rightarrow> c = 0x23 | _ \<Rightarrow> False))"

definition sel_section_id :: "document \<Rightarrow> element \<Rightarrow> bool" where
  \<comment> \<open>\<^verbatim>\<open>section[id]\<close>\<close>
  "sel_section_id d e = (localName e = js ''section'' \<and> idAttr e \<noteq> None)"

definition sel_doc_section :: "document \<Rightarrow> element \<Rightarrow> bool" where
  \<comment> \<open>\<^verbatim>\<open>.documentation-content section\<close>\<close>
  "sel_doc_section d e =
     (localName e = js ''section'' \<and>
      list_ex (\<lambda>a. a < length d \<and> js ''documentation-content'' \<in> set (classList (d ! a)))
        (ancestors e))"

section \<open>Section navigator\<close>

text \<open>
  The state of the navigator: the document, and the elements \<open>scrollIntoView\<close> was called
  on. A handler that dereferences \<open>null\<close> throws a \<open>TypeError\<close>.
\<close>

datatype js_error = TypeError

record page =
  dom :: document
  scroll_log :: "nat list"

definition updateActiveNavLink :: "nat \<Rightarrow> document \<Rightarrow> document" where
  "updateActiveNavLink activeLink d =
     (let navItems = querySelectorAll sel_nav_item d;
          d' = fold (\<lambda>item. update_element item (classList_remove (js ''active''))) navItems d
      in update_element activeLink (classList_add (js ''active'')) d')"

text \<open>
  The click handler of a link \<open>this\<close>, one of \<open>navLinks\<close>. \<open>substring(1)\<close> drops the first code
  unit of the \<open>href\<close>. The handler also prevents the default jump, which changes nothing
  here.
\<close>

definition navLinks :: "document \<Rightarrow> nat list" where
  "navLinks d = querySelectorAll sel_hash_link d"

definition navLink_click :: "nat \<Rightarrow> page \<Rightarrow> js_error + page" where
  "navLink_click this p =
     (case hrefAttr (dom p ! this) of
        None \<Rightarrow> Inl TypeError
      | Some href \<Rightarrow>
          (let targetId = drop 1 href in
           case getElementById (dom p) targetId of
             None \<Rightarrow> Inr p
           | Some targetElement \<Rightarrow>
               Inr (p\<lparr>scroll_log := scroll_log p @ [targetElement],
                      dom := updateActiveNavLink this (dom p)\<rparr>)))"

text \<open>
  The element the fragment of a link resolves to: what the click handler looks up.
\<close>

definition link_target :: "document \<Rightarrow> nat \<Rightarrow> nat option" where
  "link_target d this =
     (case hrefAttr (d ! this) of None \<Rightarrow> None | Some href \<Rightarrow> getElementById d (drop 1 href))"


definition hash_plus :: "jstring option \<Rightarrow> jstring" where
  "hash_plus current = 0x23 # (case current of None \<Rightarrow> js ''null'' | Some s \<Rightarrow> s)"

definition mark_link :: "jstring option \<Rightarrow> element \<Rightarrow> element" where
  "mark_link current link =
     (let link' = classList_remove (js ''active'') link
      in if hrefAttr link' = Some (hash_plus current)
         then classList_add (js ''active'') link' else link')"



text \<open>The links that bear the active state: every \<open>navLinks\<close> element with the class.\<close>

definition active_links :: "document \<Rightarrow> nat list" where
  "active_links d = filter (\<lambda>i. is_active (d ! i)) (navLinks d)"

text \<open>
  The current section as the specification words it: the last, in document order, of
  the sections with an \<open>id\<close> whose top edge is at most 100.
\<close>

definition qualifying_sections :: "document \<Rightarrow> nat list" where
  "qualifying_sections d =
     filter (\<lambda>i. rect_top (d ! i) \<le> 100) (querySelectorAll sel_section_id d)"

section \<open>Documentation search\<close>

text \<open>\<open>String.prototype.includes\<close>: the argument occurs somewhere in the string.\<close>

fun js_includes :: "jstring \<Rightarrow> jstring \<Rightarrow> bool" where
  "js_includes [] t = (t = [])"
| "js_includes (c # cs) t = (take (length t) (c # cs) = t \<or> js_includes cs t)"

text \<open>
  The input handler of the search field, for the field's value \<open>v\<close>. \<open>toLowerCase\<close> is
  the platform's Unicode lower-casing, taken as a parameter.
\<close>

definition show_or_hide :: "(jstring \<Rightarrow> jstring) \<Rightarrow> jstring \<Rightarrow> element \<Rightarrow> element" where
  "show_or_hide toLowerCase searchTerm section =
     (let text = toLowerCase (textContent section)
      in if js_includes text searchTerm \<or> searchTerm = []
         then section\<lparr>style_display := js ''block''\<rparr>
         else section\<lparr>style_display := js ''none''\<rparr>)"

definition search_input :: "(jstring \<Rightarrow> jstring) \<Rightarrow> jstring \<Rightarrow> document \<Rightarrow> document" where
  "search_input toLowerCase v d =
     (let searchTerm = toLowerCase v;
          sections = querySelectorAll sel_doc_section d
      in fold (\<lambda>section. update_element section (show_or_hide toLowerCase searchTerm)) sections d)"

section \<open>Example pages\<close>

text \<open>Concrete documents on which the theorems below are evaluated.\<close>

definition mk_element ::
  "string \<Rightarrow> string option \<Rightarrow> string option \<Rightarrow> string list \<Rightarrow> real \<Rightarrow> string \<Rightarrow> element" where
  "mk_element tag ident href classes y txt =
     \<lparr>localName = js tag, idAttr = map_option js ident, hrefAttr = map_option js href,
      classList = map js classes, rect_top = y, textContent = js txt,
      style_display = [], ancestors = []\<rparr>"

definition nav_page :: document where
  "nav_page =
     [mk_element ''a'' None (Some ''#intro'') [''list-group-item-action'', ''active''] 0 ''Intro'',
      mk_element ''a'' None (Some ''#usage'') [''list-group-item-action''] 20 ''Usage'',
      mk_element ''section'' (Some ''intro'') None [] (-300) ''Welcome'',
      mk_element ''section'' (Some ''usage'') None [] 40 ''How to call'',
      mk_element ''section'' (Some ''faq'') None [] 700 ''Questions'']"


definition plain_links_page :: document where
  "plain_links_page =
     [mk_element ''a'' None (Some ''#s1'') [] 0 ''One'',
      mk_element ''a'' None (Some ''#s2'') [] 20 ''Two'',
      mk_element ''section'' (Some ''s1'') None [] 40 ''First'',
      mk_element ''section'' (Some ''s2'') None [] 700 ''Second'']"

text \<open>A lower-casing of the ASCII letters, to stand for the platform's on these pages.\<close>

definition ascii_lower :: "jstring \<Rightarrow> jstring" where
  "ascii_lower s = map (\<lambda>c. if 0x41 \<le> c \<and> c \<le> 0x5A then c + 0x20 else c) s"

definition doc_page :: document where
  "doc_page =
     [mk_element ''div'' None None [''documentation-content''] 0 ''Getting Started Rate limits'',
      (mk_element ''section'' (Some ''start'') None [] 0 ''Getting Started'')\<lparr>ancestors := [0]\<rparr>,
      (mk_element ''section'' (Some ''limits'') None [] 300 ''Rate limits'')\<lparr>ancestors := [0]\<rparr>,
      mk_element ''section'' (Some ''footer'') None [] 900 ''Rate card'']"

section \<open>JSON\<close>

text \<open>
  A JSON value as \<open>response.json()\<close> delivers it and \<open>JSON.stringify\<close> takes it: an object
  is the list of its properties in enumeration order. Numbers are IEEE doubles; their
  type is the parameter \<open>'n\<close> and their rendering a parameter of \<open>JSON_stringify\<close>.
\<close>

datatype 'n json =
    JNull
  | JBool bool
  | JNumber 'n
  | JString jstring
  | JArray "'n json list"
  | JObject "(jstring \<times> 'n json) list"

subsection \<open>\<open>JSON.stringify\<close>\<close>

text \<open>
  \<open>QuoteJSONString\<close> of ECMAScript: the two-character escapes of the table, \<open>\uXXXX\<close> (lower
  case hexadecimal) for the other code units below 0x20 and for a surrogate that is not
  part of a pair, and every other code unit as it is.
\<close>

definition hexdigit :: "nat \<Rightarrow> cu" where
  "hexdigit n = of_nat (if n < 10 then 48 + n else 87 + n)"

definition unicode_escape :: "cu \<Rightarrow> jstring" where
  "unicode_escape c =
     [0x5C, 0x75, hexdigit (unat c div 4096), hexdigit (unat c div 256 mod 16),
      hexdigit (unat c div 16 mod 16), hexdigit (unat c mod 16)]"

definition is_leading_surrogate :: "cu \<Rightarrow> bool" where
  "is_leading_surrogate c = (0xD800 \<le> c \<and> c \<le> 0xDBFF)"

definition is_trailing_surrogate :: "cu \<Rightarrow> bool" where
  "is_trailing_surrogate c = (0xDC00 \<le> c \<and> c \<le> 0xDFFF)"

definition quote_unit :: "cu \<Rightarrow> jstring" where
  "quote_unit c =
     (if c = 0x08 then [0x5C, 0x62]
      else if c = 0x09 then [0x5C, 0x74]
      else if c = 0x0A then [0x5C, 0x6E]
      else if c = 0x0C then [0x5C, 0x66]
      else if c = 0x0D then [0x5C, 0x72]
      else if c = 0x22 then [0x5C, 0x22]
      else if c = 0x5C then [0x5C, 0x5C]
      else if c < 0x20 then unicode_escape c
      else [c])"

fun quote_units :: "jstring \<Rightarrow> jstring" where
  "quote_units [] = []"
| "quote_units [c] =
     (if is_leading_surrogate c \<or> is_trailing_surrogate c then unicode_escape c
      else quote_unit c)"
| "quote_units (c # d # cs) =
     (if is_leading_surrogate c
      then (if is_trailing_surrogate d then c # d # quote_units cs
            else unicode_escape c @ quote_units (d # cs))
      else if is_trailing_surrogate c then unicode_escape c @ quote_units (d # cs)
      else quote_unit c @ quote_units (d # cs))"

definition QuoteJSONString :: "jstring \<Rightarrow> jstring" where
  "QuoteJSONString s = 0x22 # quote_units s @ [0x22]"

text \<open>
  \<open>SerializeJSONProperty\<close> with its \<open>gap\<close> and current \<open>indent\<close>. With an empty gap the
  parts are joined by commas; otherwise each part stands on a line of its own, indented
  one gap more than the brackets around it.
\<close>

fun join :: "jstring \<Rightarrow> jstring list \<Rightarrow> jstring" where
  "join sep [] = []"
| "join sep [x] = x"
| "join sep (x # y # ys) = x @ sep @ join sep (y # ys)"

definition wrap :: "cu \<Rightarrow> cu \<Rightarrow> jstring \<Rightarrow> jstring \<Rightarrow> jstring list \<Rightarrow> jstring" where
  "wrap opening closing gap indent partial =
     (if partial = [] then [opening, closing]
      else if gap = [] then opening # join [0x2C] partial @ [closing]
      else opening # 0x0A # (indent @ gap) @ join (0x2C # 0x0A # (indent @ gap)) partial @
           0x0A # indent @ [closing])"

fun serialize :: "('n \<Rightarrow> jstring) \<Rightarrow> jstring \<Rightarrow> jstring \<Rightarrow> 'n json \<Rightarrow> jstring"
  and serialize_elements ::
    "('n \<Rightarrow> jstring) \<Rightarrow> jstring \<Rightarrow> jstring \<Rightarrow> 'n json list \<Rightarrow> jstring list"
  and serialize_members ::
    "('n \<Rightarrow> jstring) \<Rightarrow> jstring \<Rightarrow> jstring \<Rightarrow> (jstring \<times> 'n json) list \<Rightarrow> jstring list"
where
  "serialize num gap indent JNull = js ''null''"
| "serialize num gap indent (JBool b) = (if b then js ''true'' else js ''false'')"
| "serialize num gap indent (JNumber n) = num n"
| "serialize num gap indent (JString s) = QuoteJSONString s"
| "serialize num gap indent (JArray vs) =
     wrap 0x5B 0x5D gap indent (serialize_elements num gap (indent @ gap) vs)"
| "serialize num gap indent (JObject kvs) =
     wrap 0x7B 0x7D gap indent (serialize_members num gap (indent @ gap) kvs)"
| "serialize_elements num gap indent [] = []"
| "serialize_elements num gap indent (v # vs) =
     serialize num gap indent v # serialize_elements num gap indent vs"
| "serialize_members num gap indent [] = []"
| "serialize_members num gap indent ((k, v) # kvs) =
     (QuoteJSONString k @ 0x3A # (if gap = [] then [] else [0x20]) @ serialize num gap indent v)
       # serialize_members num gap indent kvs"

text \<open>\<open>JSON.stringify(v, null, space)\<close> for a number \<open>space\<close>: the gap is that many spaces, at most 10.\<close>

definition JSON_stringify :: "('n \<Rightarrow> jstring) \<Rightarrow> 'n json \<Rightarrow> nat \<Rightarrow> jstring" where
  "JSON_stringify num v space = serialize num (replicate (min 10 space) 0x20) [] v"

subsection \<open>Reading JSON text\<close>

text \<open>
  The JSON grammar (ECMA-404, as \<open>JSON.parse\<close> reads it), as a reader from text to the
  value written there: the members of an object in the order of the text, a number as
  its lexeme. A text is valid JSON when \<open>JSON_read\<close> gives a value.
\<close>

definition json_ws :: "cu \<Rightarrow> bool" where
  "json_ws c = (c = 0x20 \<or> c = 0x09 \<or> c = 0x0A \<or> c = 0x0D)"

definition skip_ws :: "jstring \<Rightarrow> jstring" where
  "skip_ws s = dropWhile json_ws s"

definition hex_digit_of :: "cu \<Rightarrow> nat option" where
  "hex_digit_of c =
     (if 0x30 \<le> c \<and> c \<le> 0x39 then Some (unat c - 48)
      else if 0x61 \<le> c \<and> c \<le> 0x66 then Some (unat c - 87)
      else if 0x41 \<le> c \<and> c \<le> 0x46 then Some (unat c - 55)
      else None)"

definition hex4 :: "cu \<Rightarrow> cu \<Rightarrow> cu \<Rightarrow> cu \<Rightarrow> cu option" where
  "hex4 a b c d =
     (case (hex_digit_of a, hex_digit_of b, hex_digit_of c, hex_digit_of d) of
        (Some w, Some x, Some y, Some z) \<Rightarrow> Some (of_nat (((w * 16 + x) * 16 + y) * 16 + z))
      | _ \<Rightarrow> None)"

definition simple_escape :: "cu \<Rightarrow> cu option" where
  "simple_escape e =
     (if e = 0x22 then Some 0x22
      else if e = 0x5C then Some 0x5C
      else if e = 0x2F then Some 0x2F
      else if e = 0x62 then Some 0x08
      else if e = 0x66 then Some 0x0C
      else if e = 0x6E then Some 0x0A
      else if e = 0x72 then Some 0x0D
      else if e = 0x74 then Some 0x09
      else None)"

definition push :: "'a \<Rightarrow> ('a list \<times> 'b) option \<Rightarrow> ('a list \<times> 'b) option" where
  "push x r = (case r of None \<Rightarrow> None | Some (xs, rest) \<Rightarrow> Some (x # xs, rest))"

text \<open>The characters of a string, after its opening quote, up to the closing one.\<close>

fun read_chars :: "jstring \<Rightarrow> (jstring \<times> jstring) option" where
  "read_chars [] = None"
| "read_chars (c # cs) =
     (if c = 0x22 then Some ([], cs)
      else if c = 0x5C then
        (case cs of
           [] \<Rightarrow> None
         | e # es \<Rightarrow>
             if e = 0x75 then
               (case es of
                  h1 # h2 # h3 # h4 # r \<Rightarrow>
                    (case hex4 h1 h2 h3 h4 of None \<Rightarrow> None | Some u \<Rightarrow> push u (read_chars r))
                | _ \<Rightarrow> None)
             else (case simple_escape e of None \<Rightarrow> None | Some u \<Rightarrow> push u (read_chars es)))
      else if c < 0x20 then None
      else push c (read_chars cs))"

definition is_digit :: "cu \<Rightarrow> bool" where
  "is_digit c = (0x30 \<le> c \<and> c \<le> 0x39)"

definition read_digits :: "jstring \<Rightarrow> (jstring \<times> jstring) option" where
  "read_digits s =
     (if takeWhile is_digit s = [] then None
      else Some (takeWhile is_digit s, dropWhile is_digit s))"

definition read_int :: "jstring \<Rightarrow> (jstring \<times> jstring) option" where
  "read_int s =
     (case s of
        [] \<Rightarrow> None
      | c # cs \<Rightarrow> if c = 0x30 then Some ([c], cs) else read_digits s)"

definition read_frac :: "jstring \<Rightarrow> (jstring \<times> jstring) option" where
  "read_frac s =
     (case s of
        [] \<Rightarrow> Some ([], s)
      | c # cs \<Rightarrow> if c = 0x2E then push c (read_digits cs) else Some ([], s))"

definition read_exp :: "jstring \<Rightarrow> (jstring \<times> jstring) option" where
  "read_exp s =
     (case s of
        [] \<Rightarrow> Some ([], s)
      | c # cs \<Rightarrow>
          if c = 0x65 \<or> c = 0x45 then
            (case cs of
               [] \<Rightarrow> None
             | d # ds \<Rightarrow>
                 if d = 0x2B \<or> d = 0x2D then push c (push d (read_digits ds))
                 else push c (read_digits cs))
          else Some ([], s))"

definition read_number :: "jstring \<Rightarrow> (jstring \<times> jstring) option" where
  "read_number s =
     (let (sign, s1) = (case s of c # cs \<Rightarrow> if c = 0x2D then ([c], cs) else ([], s) | [] \<Rightarrow> ([], s))
      in case read_int s1 of
           None \<Rightarrow> None
         | Some (i, s2) \<Rightarrow>
             (case read_frac s2 of
                None \<Rightarrow> None
              | Some (f, s3) \<Rightarrow>
                  (case read_exp s3 of
                     None \<Rightarrow> None
                   | Some (e, s4) \<Rightarrow> Some (sign @ i @ f @ e, s4))))"

definition read_literal :: "jstring \<Rightarrow> 'a \<Rightarrow> jstring \<Rightarrow> ('a \<times> jstring) option" where
  "read_literal lit v s =
     (if take (length lit) s = lit then Some (v, drop (length lit) s) else None)"

text \<open>
  Values, array elements and object members. The first argument bounds the number of
  nested calls; with none left the reader gives up.
\<close>

fun read_json :: "nat \<Rightarrow> jstring \<Rightarrow> (jstring json \<times> jstring) option"
  and read_elements :: "nat \<Rightarrow> jstring \<Rightarrow> (jstring json list \<times> jstring) option"
  and read_members :: "nat \<Rightarrow> jstring \<Rightarrow> ((jstring \<times> jstring json) list \<times> jstring) option"
where
  "read_json 0 s = None"
| "read_json (Suc n) s =
     (case skip_ws s of
        [] \<Rightarrow> None
      | c # cs \<Rightarrow>
          if c = 0x22 then map_option (apfst JString) (read_chars cs)
          else if c = 0x5B then
            (case skip_ws cs of
               [] \<Rightarrow> None
             | d # ds \<Rightarrow>
                 if d = 0x5D then Some (JArray [], ds)
                 else map_option (apfst JArray) (read_elements n (d # ds)))
          else if c = 0x7B then
            (case skip_ws cs of
               [] \<Rightarrow> None
             | d # ds \<Rightarrow>
                 if d = 0x7D then Some (JObject [], ds)
                 else map_option (apfst JObject) (read_members n (d # ds)))
          else if c = 0x74 then read_literal (js ''true'') (JBool True) (c # cs)
          else if c = 0x66 then read_literal (js ''false'') (JBool False) (c # cs)
          else if c = 0x6E then read_literal (js ''null'') JNull (c # cs)
          else map_option (apfst JNumber) (read_number (c # cs)))"
| "read_elements 0 s = None"
| "read_elements (Suc n) s =
     (case read_json n s of
        None \<Rightarrow> None
      | Some (v, r) \<Rightarrow>
          (case skip_ws r of
             [] \<Rightarrow> None
           | c # cs \<Rightarrow>
               if c = 0x2C then push v (read_elements n cs)
               else if c = 0x5D then Some ([v], cs)
               else None))"
| "read_members 0 s = None"
| "read_members (Suc n) s =
     (case skip_ws s of
        [] \<Rightarrow> None
      | q # qs \<Rightarrow>
          if q \<noteq> 0x22 then None
          else
            (case read_chars qs of
               None \<Rightarrow> None
             | Some (k, r) \<Rightarrow>
                 (case skip_ws r of
                    [] \<Rightarrow> None
                  | c # cs \<Rightarrow>
                      if c \<noteq> 0x3A then None
                      else
                        (case read_json n cs of
                           None \<Rightarrow> None
                         | Some (v, r') \<Rightarrow>
                             (case skip_ws r' of
                                [] \<Rightarrow> None
                              | e # es \<Rightarrow>
                                  if e = 0x2C then push (k, v) (read_members n es)
                                  else if e = 0x7D then Some ([(k, v)], es)
                                  else None)))))"

definition JSON_read :: "jstring \<Rightarrow> jstring json option" where
  "JSON_read s =
     (case read_json (Suc (length s)) s of
        None \<Rightarrow> None
      | Some (v, r) \<Rightarrow> if skip_ws r = [] then Some v else None)"

section \<open>API tester\<close>

text \<open>
  The request the submit handler hands to \<open>fetch\<close>, and what comes back. \<open>fetch\<close> may stay
  pending for ever, reject with an error that carries a message, or resolve with a
  response; \<open>response.json()\<close> likewise stays pending, rejects, or resolves with the parsed
  body. \<open>response.ok\<close> is, by the Fetch standard, a status from 200 to 299.
\<close>

record request =
  req_url :: jstring
  req_method :: jstring
  req_headers :: "(jstring \<times> jstring) list"
  req_body :: jstring

datatype 'n body_result = BodyPending | BodyFails jstring | BodyJson "'n json"

record 'n response =
  status :: nat
  json_result :: "'n body_result"

datatype 'n fetch_result = Pending | Rejected jstring | Responded "'n response"

definition response_ok :: "'n response \<Rightarrow> bool" where
  "response_ok r = (200 \<le> status r \<and> status r \<le> 299)"

text \<open>
  The state the handler works on: the text and the \<open>className\<close> of \<open>#api-test-output\<close>, the
  \<open>style.display\<close> of \<open>#api-test-result\<close>, the alerts shown and the requests sent. The page
  has the form, its two inputs and these two elements.
\<close>

record tester =
  output_textContent :: jstring
  output_className :: jstring
  result_display :: jstring
  alerts :: "jstring list"
  requests :: "request list"

definition success_class :: jstring where
  "success_class = js ''bg-dark p-3 rounded border border-success''"

definition danger_class :: jstring where
  "danger_class = js ''bg-dark p-3 rounded border border-danger''"

definition validate_request :: "('n \<Rightarrow> jstring) \<Rightarrow> jstring \<Rightarrow> jstring \<Rightarrow> request" where
  "validate_request num apiKey email =
     \<lparr>req_url = js ''/api/validate'', req_method = js ''POST'',
      req_headers = [(js ''X-API-Key'', apiKey), (js ''Content-Type'', js ''application/json'')],
      req_body = JSON_stringify num (JObject [(js ''email'', JString email)]) 0\<rparr>"

text \<open>The \<open>catch\<close> block, for an error with the message \<open>message\<close>.\<close>

definition catch_block :: "('n \<Rightarrow> jstring) \<Rightarrow> jstring \<Rightarrow> tester \<Rightarrow> tester" where
  "catch_block num message st =
     st\<lparr>output_textContent :=
          JSON_stringify num (JObject [(js ''error'', JString (js ''Request failed: '' @ message))]) 2,
        output_className := danger_class\<rparr>"

text \<open>
  The submit handler, for the values \<open>apiKey\<close> and \<open>email\<close> of the two inputs and the network
  \<open>net\<close>, run until nothing is left to await. \<open>!apiKey\<close> holds of the empty string only.
\<close>

definition submit ::
  "('n \<Rightarrow> jstring) \<Rightarrow> (request \<Rightarrow> 'n fetch_result) \<Rightarrow> jstring \<Rightarrow> jstring \<Rightarrow> tester \<Rightarrow> tester" where
  "submit num net apiKey email st =
     (if apiKey = [] \<or> email = []
      then st\<lparr>alerts := alerts st @ [js ''Please enter both API key and email address'']\<rparr>
      else
        (let st1 = st\<lparr>output_textContent := js ''Testing API...'', result_display := js ''block''\<rparr>;
             req = validate_request num apiKey email;
             st2 = st1\<lparr>requests := requests st1 @ [req]\<rparr>
         in case net req of
              Pending \<Rightarrow> st2
            | Rejected message \<Rightarrow> catch_block num message st2
            | Responded response \<Rightarrow>
                (case json_result response of
                   BodyPending \<Rightarrow> st2
                 | BodyFails message \<Rightarrow> catch_block num message st2
                 | BodyJson result \<Rightarrow>
                     (let st3 = st2\<lparr>output_textContent := JSON_stringify num result 2\<rparr>
                      in if response_ok response
                         then st3\<lparr>output_className := success_class\<rparr>
                         else st3\<lparr>output_className := danger_class\<rparr>))))"

text \<open>A page state and two networks, for evaluation.\<close>

definition fresh_tester :: tester where
  "fresh_tester =
     \<lparr>output_textContent = [], output_className = js ''bg-dark p-3 rounded'',
      result_display = js ''none'', alerts = [], requests = []\<rparr>"

definition net_offline :: "request \<Rightarrow> jstring fetch_result" where
  "net_offline req = Rejected (js ''Failed to fetch'')"

definition net_reply :: "nat \<Rightarrow> jstring json \<Rightarrow> request \<Rightarrow> jstring fetch_result" where
  "net_reply code body req = Responded \<lparr>status = code, json_result = BodyJson body\<rparr>"

definition net_garbled :: "request \<Rightarrow> jstring fetch_result" where
  "net_garbled req =
     Responded \<lparr>status = 502, json_result = BodyFails (js ''Unexpected token < in JSON'')\<rparr>"

section \<open>Code-block copier\<close>

text \<open>
  One copy control: its \<open>innerHTML\<close> and class tokens, the clipboard, the console, a clock in
  milliseconds and the timers \<open>setTimeout\<close> has registered. A timer holds the time it is due
  and what its callback has captured: the \<open>originalHTML\<close> read when the clipboard write
  succeeded.
\<close>

record timer =
  due :: nat
  originalHTML :: jstring

record copier =
  clock :: nat
  innerHTML :: jstring
  button_classes :: "jstring list"
  clipboard :: jstring
  timers :: "timer list"
  console_errors :: "(jstring \<times> jstring) list"

datatype clipboard_result = Written | Refused jstring

definition copy_icon :: jstring where
  "copy_icon = js ''<i class='' @ 0x22 # js ''fas fa-copy'' @ 0x22 # js ''></i>''"

definition check_icon :: jstring where
  "check_icon = js ''<i class='' @ 0x22 # js ''fas fa-check text-success'' @ 0x22 # js ''></i>''"

text \<open>Assigning \<open>className\<close> sets the class tokens: the words of the string, each once.\<close>

definition is_ascii_ws :: "cu \<Rightarrow> bool" where
  "is_ascii_ws c = (c = 0x09 \<or> c = 0x0A \<or> c = 0x0C \<or> c = 0x0D \<or> c = 0x20)"

fun tokens_from :: "jstring \<Rightarrow> jstring \<Rightarrow> jstring list" where
  "tokens_from cur [] = (if cur = [] then [] else [cur])"
| "tokens_from cur (c # cs) =
     (if is_ascii_ws c then (if cur = [] then tokens_from [] cs else cur # tokens_from [] cs)
      else tokens_from (cur @ [c]) cs)"

definition class_tokens :: "jstring \<Rightarrow> jstring list" where
  "class_tokens s = rev (remdups (rev (tokens_from [] s)))"

text \<open>The button as the script creates it, at time \<open>t\<close>.\<close>

definition create_button :: "nat \<Rightarrow> copier" where
  "create_button t =
     \<lparr>clock = t, innerHTML = copy_icon,
      button_classes =
        class_tokens (js ''btn btn-sm btn-outline-secondary position-absolute top-0 end-0 m-2''),
      clipboard = [], timers = [], console_errors = []\<rparr>"

text \<open>The callback of a clipboard write that succeeded.\<close>

definition on_copied :: "copier \<Rightarrow> copier" where
  "on_copied s =
     (let saved = innerHTML s
      in s\<lparr>innerHTML := check_icon,
           button_classes :=
             token_add (js ''btn-outline-success'')
               (token_remove (js ''btn-outline-secondary'') (button_classes s)),
           timers := timers s @ [\<lparr>due = clock s + 2000, originalHTML = saved\<rparr>]\<rparr>)"

text \<open>The click handler, for the text of the code block and the outcome of \<open>writeText\<close>.\<close>

definition copyButton_click :: "jstring \<Rightarrow> clipboard_result \<Rightarrow> copier \<Rightarrow> copier" where
  "copyButton_click code outcome s =
     (case outcome of
        Written \<Rightarrow> on_copied (s\<lparr>clipboard := code\<rparr>)
      | Refused err \<Rightarrow> s\<lparr>console_errors := console_errors s @ [(js ''Failed to copy: '', err)]\<rparr>)"

text \<open>The callback of a timer.\<close>

definition fire :: "timer \<Rightarrow> copier \<Rightarrow> copier" where
  "fire tm s =
     s\<lparr>innerHTML := originalHTML tm,
       button_classes :=
         token_add (js ''btn-outline-secondary'')
           (token_remove (js ''btn-outline-success'') (button_classes s))\<rparr>"

text \<open>
  Time passes up to \<open>t\<close>: the timers due by then run, earliest first, and leave the list.
  A timer never runs before it is due.
\<close>

definition advance :: "nat \<Rightarrow> copier \<Rightarrow> copier" where
  "advance t s =
     (let s' = fold fire (sort_key due (filter (\<lambda>tm. due tm \<le> t) (timers s))) s
      in s'\<lparr>clock := max (clock s) t, timers := filter (\<lambda>tm. \<not> due tm \<le> t) (timers s)\<rparr>)"

text \<open>The class tokens of the button while it confirms a copy, and at rest after one.\<close>

definition confirm_classes :: "jstring list" where
  "confirm_classes =
     [js ''btn'', js ''btn-sm'', js ''position-absolute'', js ''top-0'', js ''end-0'',
      js ''m-2'', js ''btn-outline-success'']"

definition idle_classes :: "jstring list" where
  "idle_classes =
     [js ''btn'', js ''btn-sm'', js ''position-absolute'', js ''top-0'', js ''end-0'',
      js ''m-2'', js ''btn-outline-secondary'']"

section \<open>Verification of \<open>isValidEmail\<close>\<close>

subsection \<open>The matcher decides the language of the pattern\<close>

lemma nullable_lang: "nullable r \<longleftrightarrow> [] \<in> lang r"
  by (induction r) (auto intro: star.intros)

lemma star_cons: "c # w \<in> star A \<longleftrightarrow> (\<exists>u v. w = u @ v \<and> c # u \<in> A \<and> v \<in> star A)"
proof
  assume "c # w \<in> star A"
  then show "\<exists>u v. w = u @ v \<and> c # u \<in> A \<and> v \<in> star A"
  proof (induction "c # w" rule: star.induct)
    case (star_app u v)
    then show ?case by (cases u) auto
  qed
next
  assume "\<exists>u v. w = u @ v \<and> c # u \<in> A \<and> v \<in> star A"
  then obtain u v where "w = u @ v" "c # u \<in> A" "v \<in> star A" by blast
  then show "c # w \<in> star A" using star_app[of "c # u" A v] by simp
qed

lemma lang_deriv: "w \<in> lang (deriv c r) \<longleftrightarrow> c # w \<in> lang r"
proof (induction r arbitrary: w)
  case (Seq r s)
  show ?case
    using Seq by (auto simp: nullable_lang Cons_eq_append_conv) (blast+)?
next
  case (Star r)
  then show ?case by (auto simp: star_cons)
qed auto

lemma test_anchored_lang: "test_anchored r s \<longleftrightarrow> s \<in> lang r"
  by (induction s arbitrary: r) (auto simp: nullable_lang lang_deriv)

lemma star_class: "star {[c] | c. p c} = {w. \<forall>c\<in>set w. p c}"
proof (intro set_eqI iffI)
  fix w assume "w \<in> star {[c] | c. p c}"
  then show "w \<in> {w. \<forall>c\<in>set w. p c}" by induction auto
next
  fix w assume "w \<in> {w. \<forall>c\<in>set w. p c}"
  then show "w \<in> star {[c] | c. p c}"
  proof (induction w)
    case Nil show ?case by (rule star_nil)
  next
    case (Cons a w)
    then show ?case using star_app[of "[a]" "{[c] | c. p c}" w] by auto
  qed
qed

lemma lang_Plus_Class: "lang (Plus (Class p)) = {w. w \<noteq> [] \<and> (\<forall>c\<in>set w. p c)}"
  unfolding Plus_def
  apply (auto simp: star_class)
  subgoal for x by (cases x) (auto intro: exI[of _ "[hd x]"])
  done

subsection \<open>The strings the pattern accepts\<close>

lemma isValidEmail_parts:
  "isValidEmail s \<longleftrightarrow>
     (\<exists>l d1 d2. s = l @ 0x40 # d1 @ 0x2E # d2 \<and> l \<noteq> [] \<and> d1 \<noteq> [] \<and> d2 \<noteq> [] \<and>
        (\<forall>c\<in>set l \<union> set d1 \<union> set d2. not_space_at c))"
  unfolding isValidEmail_def test_anchored_lang emailRegex_def
  apply (simp add: lang_Plus_Class)
  apply blast
  done

lemma at_not_space: "\<not> is_space 0x40" "\<not> is_space 0x2E"
  by (simp_all add: is_space_def)

lemma parts_imp_shape:
  assumes "s = l @ 0x40 # d1 @ 0x2E # d2" "l \<noteq> []" "d1 \<noteq> []" "d2 \<noteq> []"
    "\<forall>c\<in>set l \<union> set d1 \<union> set d2. not_space_at c"
  shows "accepted_email_shape s"
proof -
  have l: "\<forall>c\<in>set l. c \<noteq> 0x40" using assms(5) by (auto simp: not_space_at_def)
  have tw: "takeWhile (\<lambda>c. c \<noteq> 0x40) s = l"
    using l assms(1) by simp
  have dw: "dropWhile (\<lambda>c. c \<noteq> 0x40) s = 0x40 # d1 @ 0x2E # d2"
    using l assms(1) by simp
  have bl: "butlast (d1 @ 0x2E # d2) = d1 @ 0x2E # butlast d2"
    using assms(4) by (simp add: butlast_append)
  have "0x2E \<in> set (tl (butlast (d1 @ 0x2E # d2)))"
    unfolding bl using assms(3) by (cases d1) auto
  moreover have "\<not> list_ex is_space s"
    using assms(1,5) at_not_space by (auto simp: list_ex_iff not_space_at_def)
  moreover have "0x40 \<notin> set (d1 @ 0x2E # d2)"
    using assms(5) by (auto simp: not_space_at_def)
  ultimately show ?thesis
    unfolding accepted_email_shape_def tw dw using assms(2) by (simp add: Let_def)
qed

lemma shape_imp_parts:
  assumes "accepted_email_shape s"
  shows "\<exists>l d1 d2. s = l @ 0x40 # d1 @ 0x2E # d2 \<and> l \<noteq> [] \<and> d1 \<noteq> [] \<and> d2 \<noteq> [] \<and>
        (\<forall>c\<in>set l \<union> set d1 \<union> set d2. not_space_at c)"
proof -
  define l where "l = takeWhile (\<lambda>c. c \<noteq> 0x40) s"
  define r where "r = dropWhile (\<lambda>c. c \<noteq> 0x40) s"
  have s: "s = l @ r" by (simp add: l_def r_def)
  from assms have a: "l \<noteq> []" "r \<noteq> []" "0x40 \<notin> set (tl r)" "\<not> list_ex is_space s"
    "0x2E \<in> set (tl (butlast (tl r)))"
    by (simp_all add: accepted_email_shape_def Let_def l_def r_def)
  have hd: "hd r = 0x40" using a(2) hd_dropWhile[of "\<lambda>c. c \<noteq> 0x40" s] by (auto simp: r_def)
  define d where "d = tl r"
  have r: "r = 0x40 # d" using a(2) hd by (cases r) (auto simp: d_def)
  from a(5) obtain x y where xy: "tl (butlast d) = x @ 0x2E # y"
    unfolding d_def by (meson split_list)
  have dne: "butlast d \<noteq> []" using xy by auto
  then have d2: "d \<noteq> []" by auto
  define d1 where "d1 = hd (butlast d) # x"
  define d2 where "d2 = y @ [last d]"
  have "butlast d = d1 @ 0x2E # y" using dne xy by (cases "butlast d") (auto simp: d1_def)
  then have "butlast d @ [last d] = d1 @ 0x2E # d2" by (simp add: d2_def)
  then have dd: "d = d1 @ 0x2E # d2" using \<open>d \<noteq> []\<close> by simp
  have l40: "0x40 \<notin> set l" unfolding l_def by (auto dest: set_takeWhileD)
  have nosp: "\<forall>c\<in>set s. \<not> is_space c" using a(4) by (simp add: list_ex_iff)
  have d40: "0x40 \<notin> set d" using a(3) by (simp add: d_def)
  have seq: "s = l @ 0x40 # d1 @ 0x2E # d2" unfolding s r dd by simp
  have "\<forall>c\<in>set l \<union> set d1 \<union> set d2. not_space_at c"
    using l40 d40 nosp unfolding not_space_at_def seq dd by auto
  moreover have "d1 \<noteq> []" "d2 \<noteq> []" by (simp_all add: d1_def d2_def)
  ultimately show ?thesis using seq a(1) by blast
qed

lemma isValidEmail_shape: "isValidEmail s \<longleftrightarrow> accepted_email_shape s"
  using parts_imp_shape shape_imp_parts unfolding isValidEmail_parts by blast

lemmas email_eval =
  isValidEmail_def emailRegex_def Plus_def js_def not_space_at_def is_space_def

text \<open>
  Claim C2, as amended. \<open>isValidEmail\<close> returns true for \<open>a@b.co\<close>, false for
  \<open>not-an-email\<close> and false for \<open>a@b\<close>. In general it accepts a string exactly when the
  string is a local part that is not empty, one \<open>@\<close>, and a domain, with no white space
  and no further \<open>@\<close> anywhere, where the domain has a dot that is neither its first nor
  its last character.
\<close>

theorem isValidEmail_accepts:
  "isValidEmail (js ''a@b.co'') \<and> \<not> isValidEmail (js ''not-an-email'') \<and>
   \<not> isValidEmail (js ''a@b'') \<and> (\<forall>s. isValidEmail s \<longleftrightarrow> accepted_email_shape s)"
proof -
  have "isValidEmail (js ''a@b.co'')" by (simp add: email_eval)
  moreover have "\<not> isValidEmail (js ''not-an-email'')" by (simp add: email_eval)
  moreover have "\<not> isValidEmail (js ''a@b'')" by (simp add: email_eval)
  ultimately show ?thesis using isValidEmail_shape by blast
qed

theorem isValidEmail_accepts_witness:
  "accepted_email_shape (js ''dev@mail.example.org'') \<and> isValidEmail (js ''dev@mail.example.org'') \<and>
   \<not> accepted_email_shape (js ''dev team@example.org'') \<and>
   \<not> isValidEmail (js ''dev team@example.org'')"
proof -
  have "accepted_email_shape (js ''dev@mail.example.org'')"
    "\<not> accepted_email_shape (js ''dev team@example.org'')"
    by (simp_all add: accepted_email_shape_def js_def is_space_def)
  then show ?thesis using isValidEmail_accepts by blast
qed

text \<open>
  Claim C2 as the specification states it, "the domain contains at least one dot", fails
  on \<open>a@.b\<close>: the string has that shape and \<open>isValidEmail\<close> rejects it.
\<close>

theorem isValidEmail_leading_dot_counterexample:
  "claimed_email_shape (js ''a@.b'') \<and> \<not> isValidEmail (js ''a@.b'')"
proof -
  have "claimed_email_shape (js ''a@.b'')"
    by (simp add: claimed_email_shape_def js_def is_space_def)
  moreover have "\<not> isValidEmail (js ''a@.b'')" by (simp add: email_eval)
  ultimately show ?thesis by blast
qed

section \<open>Verification of the section navigator\<close>

subsection \<open>Loops over a selection\<close>

lemma qsa_set: "set (querySelectorAll sel d) = {i. i < length d \<and> sel d (d ! i)}"
  by (auto simp: querySelectorAll_def)

lemma qsa_distinct: "distinct (querySelectorAll sel d)"
  by (simp add: querySelectorAll_def)

lemma fold_update_length:
  "length (fold (\<lambda>i. update_element i (f i)) xs d) = length d"
  by (induction xs arbitrary: d) (simp_all add: update_element_def)

lemma fold_update_nth:
  assumes "distinct xs" "j < length d"
  shows "fold (\<lambda>i. update_element i (f i)) xs d ! j = (if j \<in> set xs then f j (d ! j) else d ! j)"
  using assms
proof (induction xs arbitrary: d)
  case Nil
  then show ?case by simp
next
  case (Cons x xs)
  have len: "j < length (update_element x (f x) d)"
    using Cons.prems by (simp add: update_element_def)
  show ?case
  proof (cases "j = x")
    case True
    then show ?thesis
      using Cons.prems Cons.IH[OF _ len] by (simp add: update_element_def)
  next
    case False
    then show ?thesis
      using Cons.prems Cons.IH[OF _ len] by (simp add: update_element_def)
  qed
qed





subsection \<open>Class tokens\<close>

lemma active_not_nav: "js ''active'' \<noteq> js ''list-group-item-action''"
  by (simp add: js_def)


lemma nav_class_add [simp]:
  "js ''list-group-item-action'' \<in> set (classList (classList_add (js ''active'') e)) \<longleftrightarrow>
   js ''list-group-item-action'' \<in> set (classList e)"
  using active_not_nav by (auto simp: classList_add_def token_add_def)

lemma nav_class_remove [simp]:
  "js ''list-group-item-action'' \<in> set (classList (classList_remove (js ''active'') e)) \<longleftrightarrow>
   js ''list-group-item-action'' \<in> set (classList e)"
  using active_not_nav by (auto simp: classList_remove_def token_remove_def)

lemma nav_class_mark [simp]:
  "js ''list-group-item-action'' \<in> set (classList (mark_link cur e)) \<longleftrightarrow>
   js ''list-group-item-action'' \<in> set (classList e)"
  by (simp add: mark_link_def Let_def)




lemma is_active_add [simp]: "is_active (classList_add (js ''active'') e)"
  by (simp add: is_active_def classList_add_def token_add_def)

lemma is_active_remove [simp]: "\<not> is_active (classList_remove (js ''active'') e)"
  by (simp add: is_active_def classList_remove_def token_remove_def)

lemma add_remove_frame [simp]:
  "hrefAttr (classList_add tok e) = hrefAttr e" "hrefAttr (classList_remove tok e) = hrefAttr e"
  "localName (classList_add tok e) = localName e" "localName (classList_remove tok e) = localName e"
  by (simp_all add: classList_add_def classList_remove_def)


subsection \<open>The scroll handler\<close>







subsection \<open>The click handler\<close>

lemma clear_length:
  "length (updateActiveNavLink this d) = length d"
  by (simp add: updateActiveNavLink_def Let_def update_element_def fold_update_length)

lemma click_nth:
  assumes "j < length d"
  shows "updateActiveNavLink this d ! j =
     (if j = this
      then classList_add (js ''active'')
             (if sel_nav_item d (d ! j) then classList_remove (js ''active'') (d ! j) else d ! j)
      else if sel_nav_item d (d ! j) then classList_remove (js ''active'') (d ! j) else d ! j)"
  using assms
  by (simp add: updateActiveNavLink_def Let_def update_element_def fold_update_length
      fold_update_nth[OF qsa_distinct] qsa_set)



lemma click_keeps_navLinks:
  "navLinks (updateActiveNavLink this d) = navLinks d"
  unfolding navLinks_def querySelectorAll_def clear_length
  by (rule filter_cong) (auto simp: click_nth sel_hash_link_def)





lemma filter_eq_member:
  "distinct xs \<Longrightarrow> k \<in> set xs \<Longrightarrow> filter (\<lambda>i. i = k) xs = [k]"
  by (induction xs) (auto simp: filter_empty_conv)

lemma navLinks_href:
  assumes "this \<in> set (navLinks d)"
  shows "this < length d" "\<exists>c cs. hrefAttr (d ! this) = Some (c # cs)"
  using assms
  by (auto simp: navLinks_def qsa_set sel_hash_link_def split: option.splits list.splits)

subsection \<open>The example pages, evaluated\<close>

lemmas ex_simps = mk_element_def js_def querySelectorAll_def sel_nav_item_def sel_section_id_def
  sel_hash_link_def sel_doc_section_def upt_rec update_element_def classList_add_def classList_remove_def
  token_add_def token_remove_def is_active_def Let_def

lemmas click_simps = navLink_click_def link_target_def getElementById_def updateActiveNavLink_def
  navLinks_def active_links_def

lemma nav_page_facts:
  "navLinks nav_page = [0, 1]" "link_target nav_page 1 = Some 3"
  "querySelectorAll sel_nav_item nav_page = [0, 1]"
  "qualifying_sections nav_page = [2, 3]"
  "length nav_page = 5"
  by (simp_all add: nav_page_def click_simps qualifying_sections_def ex_simps)

lemma nav_page_click:
   "navLink_click 1 \<lparr>dom = nav_page, scroll_log = []\<rparr> =
     Inr \<lparr>dom = updateActiveNavLink 1 nav_page, scroll_log = [3]\<rparr>"
  by (simp add: nav_page_def click_simps ex_simps)

lemma nav_page_hrefs:
  "map (\<lambda>i. hrefAttr (nav_page ! i)) [0, 1] = [Some (js ''#intro''), Some (js ''#usage'')]"
  "idAttr (nav_page ! 3) = Some (js ''usage'')"
  "is_active (nav_page ! 0)" "\<not> is_active (nav_page ! 1)"
  by (simp_all add: nav_page_def mk_element_def is_active_def js_def)





text \<open>
  Claim C4, as amended. A click on an in-page link whose fragment resolves to an element
  \<open>t\<close> asks for \<open>t\<close> to be scrolled into view, leaves the clicked link active and every
  other navigation item inactive, and leaves every other element that is not a navigation
  item as it was. The clicked link is then the only active link when every other link is
  a navigation item or was not active before.
\<close>

theorem click_marks_clicked_link:
  assumes "this \<in> set (navLinks (dom p))" "link_target (dom p) this = Some t"
  shows "\<exists>p'. navLink_click this p = Inr p' \<and> scroll_log p' = scroll_log p @ [t] \<and>
           length (dom p') = length (dom p) \<and> is_active (dom p' ! this) \<and>
           (\<forall>j<length (dom p). j \<noteq> this \<longrightarrow>
              (if sel_nav_item (dom p) (dom p ! j) then \<not> is_active (dom p' ! j)
               else dom p' ! j = dom p ! j)) \<and>
           ((\<forall>j\<in>set (navLinks (dom p)). j \<noteq> this \<longrightarrow>
                sel_nav_item (dom p) (dom p ! j) \<or> \<not> is_active (dom p ! j)) \<longrightarrow>
            active_links (dom p') = [this])"
proof -
  define d where "d = dom p"
  define p' where "p' = p\<lparr>scroll_log := scroll_log p @ [t], dom := updateActiveNavLink this d\<rparr>"
  from navLinks_href[OF assms(1)] obtain c cs
    where h: "hrefAttr (d ! this) = Some (c # cs)" and len: "this < length d"
    unfolding d_def by blast
  have run: "navLink_click this p = Inr p'"
    using h assms(2) by (simp add: navLink_click_def link_target_def Let_def p'_def d_def)
  have d': "dom p' = updateActiveNavLink this d" by (simp add: p'_def)
  have act: "is_active (dom p' ! this)" using len by (simp add: d' click_nth)
  have others: "\<forall>j<length d. j \<noteq> this \<longrightarrow>
              (if sel_nav_item d (d ! j) then \<not> is_active (dom p' ! j)
               else dom p' ! j = d ! j)"
    by (simp add: d' click_nth)
  have sole: "active_links (dom p') = [this]"
    if a: "\<forall>j\<in>set (navLinks d). j \<noteq> this \<longrightarrow> sel_nav_item d (d ! j) \<or> \<not> is_active (d ! j)"
  proof -
    have "active_links (dom p') = filter (\<lambda>i. i = this) (navLinks d)"
      unfolding active_links_def d' click_keeps_navLinks
    proof (rule filter_cong[OF refl])
      fix j assume j: "j \<in> set (navLinks d)"
      then have jl: "j < length d" by (simp add: navLinks_def qsa_set)
      show "is_active (updateActiveNavLink this d ! j) = (j = this)"
        using a j jl by (auto simp: click_nth)
    qed
    then show ?thesis
      using filter_eq_member[OF _ assms(1)[folded d_def]] qsa_distinct
      by (simp add: navLinks_def)
  qed
  show ?thesis
    using run act others sole by (auto simp: d_def[symmetric] p'_def clear_length)
qed

theorem click_marks_clicked_link_witness:
  "1 \<in> set (navLinks nav_page) \<and> link_target nav_page 1 = Some 3 \<and>
   navLink_click 1 \<lparr>dom = nav_page, scroll_log = []\<rparr> =
     Inr \<lparr>dom = updateActiveNavLink 1 nav_page, scroll_log = [3]\<rparr> \<and>
   is_active (nav_page ! 0) \<and> \<not> is_active (nav_page ! 1) \<and>
   is_active (updateActiveNavLink 1 nav_page ! 1) \<and>
   \<not> is_active (updateActiveNavLink 1 nav_page ! 0) \<and>
   active_links (updateActiveNavLink 1 nav_page) = [1]"
proof -
  have m: "1 \<in> set (navLinks (dom \<lparr>dom = nav_page, scroll_log = []\<rparr>))"
    by (simp add: nav_page_facts)
  have t: "link_target (dom \<lparr>dom = nav_page, scroll_log = []\<rparr>) 1 = Some 3"
    using nav_page_facts(2) by simp
  have nav0: "sel_nav_item nav_page (nav_page ! 0)"
    by (simp add: nav_page_def mk_element_def sel_nav_item_def)
  show ?thesis
    using click_marks_clicked_link[OF m t] nav0 nav_page_facts nav_page_click nav_page_hrefs
    by (auto dest: spec[of _ "0::nat"])
qed

text \<open>
  Claim C4 as the specification states it fails for links outside the navigation items:
  on a page of two plain in-page links, a click on the first and then on the second
  leaves both active.
\<close>

theorem two_clicks_counterexample:
  "navLink_click 0 \<lparr>dom = plain_links_page, scroll_log = []\<rparr> =
     Inr \<lparr>dom = updateActiveNavLink 0 plain_links_page, scroll_log = [2]\<rparr> \<and>
   1 \<in> set (navLinks (updateActiveNavLink 0 plain_links_page)) \<and>
   link_target (updateActiveNavLink 0 plain_links_page) 1 = Some 3 \<and>
   navLink_click 1 \<lparr>dom = updateActiveNavLink 0 plain_links_page, scroll_log = [2]\<rparr> =
     Inr \<lparr>dom = updateActiveNavLink 1 (updateActiveNavLink 0 plain_links_page),
          scroll_log = [2, 3]\<rparr> \<and>
   active_links (updateActiveNavLink 1 (updateActiveNavLink 0 plain_links_page)) = [0, 1]"
  by (simp add: plain_links_page_def click_simps ex_simps)





section \<open>Verification of the documentation search\<close>

lemma js_includes_sublist: "js_includes s t \<longleftrightarrow> sublist t s"
proof (induction s)
  case Nil
  then show ?case by auto
next
  case (Cons c cs)
  have "take (length t) (c # cs) = t \<longleftrightarrow> prefix t (c # cs)"
    by (metis append_take_drop_id prefix_def append_eq_conv_conj)
  then show ?case using Cons by (simp add: sublist_Cons_right)
qed

lemma search_length: "length (search_input lc v d) = length d"
  by (simp add: search_input_def Let_def fold_update_length)

lemma search_nth:
  assumes "j < length d"
  shows "search_input lc v d ! j =
     (if sel_doc_section d (d ! j) then show_or_hide lc (lc v) (d ! j) else d ! j)"
  using assms
  by (simp add: search_input_def Let_def fold_update_nth[OF qsa_distinct] qsa_set)

lemma block_not_none: "js ''block'' \<noteq> js ''none''"
  by (simp add: js_def)

lemma doc_page_facts:
  "querySelectorAll sel_doc_section doc_page = [1, 2]"
  "style_display (search_input ascii_lower (js ''RATE'') doc_page ! 1) = js ''none''"
  "style_display (search_input ascii_lower (js ''RATE'') doc_page ! 2) = js ''block''"
  "style_display (search_input ascii_lower [] doc_page ! 1) = js ''block''"
  "style_display (search_input ascii_lower [] doc_page ! 2) = js ''block''"
  "style_display (search_input ascii_lower (js ''RATE'') doc_page ! 3) = []"
  by (simp_all add: doc_page_def search_input_def show_or_hide_def ascii_lower_def ex_simps)

text \<open>
  Claim C8. After an input event with the field's value \<open>v\<close>, every documentation section
  has \<open>display\<close> \<open>block\<close> when \<open>v\<close> is empty or the lower-cased text of the section contains
  the lower-cased \<open>v\<close>, and \<open>none\<close> otherwise; its text is unchanged. The lower-casing of
  the platform maps the empty string to itself.
\<close>

theorem search_filters_sections:
  assumes "toLowerCase [] = []" "i \<in> set (querySelectorAll sel_doc_section d)"
  shows "(style_display (search_input toLowerCase v d ! i) = js ''block'' \<longleftrightarrow>
            v = [] \<or> sublist (toLowerCase v) (toLowerCase (textContent (d ! i)))) \<and>
         (style_display (search_input toLowerCase v d ! i) = js ''none'' \<longleftrightarrow>
            \<not> (v = [] \<or> sublist (toLowerCase v) (toLowerCase (textContent (d ! i))))) \<and>
         textContent (search_input toLowerCase v d ! i) = textContent (d ! i)"
proof -
  from assms(2) have i: "i < length d" "sel_doc_section d (d ! i)" by (simp_all add: qsa_set)
  have e: "v = [] \<or> sublist (toLowerCase v) (toLowerCase (textContent (d ! i))) \<longleftrightarrow>
      js_includes (toLowerCase (textContent (d ! i))) (toLowerCase v) \<or> toLowerCase v = []"
    using assms(1) by (auto simp: js_includes_sublist)
  show ?thesis
    unfolding e using i block_not_none
    by (auto simp: search_nth show_or_hide_def Let_def)
qed

theorem search_filters_sections_witness:
  "ascii_lower [] = [] \<and> querySelectorAll sel_doc_section doc_page = [1, 2] \<and>
   style_display (search_input ascii_lower (js ''RATE'') doc_page ! 1) = js ''none'' \<and>
   style_display (search_input ascii_lower (js ''RATE'') doc_page ! 2) = js ''block'' \<and>
   style_display (search_input ascii_lower [] doc_page ! 1) = js ''block'' \<and>
   style_display (search_input ascii_lower [] doc_page ! 2) = js ''block'' \<and>
   style_display (search_input ascii_lower (js ''RATE'') doc_page ! 3) = []"
proof -
  have l: "ascii_lower [] = []" by (simp add: ascii_lower_def)
  have m: "2 \<in> set (querySelectorAll sel_doc_section doc_page)" by (simp add: doc_page_facts)
  show ?thesis
    using search_filters_sections[of ascii_lower 2 doc_page "js ''RATE''", OF l m] l doc_page_facts
    by simp
qed

section \<open>Verification of the JSON text of the tester\<close>

subsection \<open>A quoted string reads back as the string\<close>

lemma unat_hexdigit: "n < 16 \<Longrightarrow> unat (hexdigit n) = (if n < 10 then 48 + n else 87 + n)"
  unfolding hexdigit_def unat_of_nat by simp

lemma hex_digit_of_hexdigit: "n < 16 \<Longrightarrow> hex_digit_of (hexdigit n) = Some n"
  by (simp add: hex_digit_of_def word_le_nat_alt unat_hexdigit)

lemma hex4_unicode_escape:
  "hex4 (hexdigit (unat c div 4096)) (hexdigit (unat c div 256 mod 16))
     (hexdigit (unat c div 16 mod 16)) (hexdigit (unat c mod 16)) = Some c"
proof -
  have b: "unat c < 65536" using unsigned_less[of c, where 'a = nat] by simp
  then have d: "unat c div 4096 < 16" by simp
  have e: "unat c div 4096 = unat c div 256 div 16" "unat c div 256 = unat c div 16 div 16"
    by (simp_all add: div_mult2_eq)
  have "unat c div 4096 * 16 + unat c div 256 mod 16 = unat c div 256"
    unfolding e(1) by simp
  moreover have "unat c div 256 * 16 + unat c div 16 mod 16 = unat c div 16"
    unfolding e(2) by simp
  ultimately have sum:
    "((unat c div 4096 * 16 + unat c div 256 mod 16) * 16 + unat c div 16 mod 16) * 16
      + unat c mod 16 = unat c"
    by simp
  have hd: "hex_digit_of (hexdigit (unat c div 4096)) = Some (unat c div 4096)"
    "hex_digit_of (hexdigit (unat c div 256 mod 16)) = Some (unat c div 256 mod 16)"
    "hex_digit_of (hexdigit (unat c div 16 mod 16)) = Some (unat c div 16 mod 16)"
    "hex_digit_of (hexdigit (unat c mod 16)) = Some (unat c mod 16)"
    using d by (simp_all add: hex_digit_of_hexdigit)
  have "hex4 (hexdigit (unat c div 4096)) (hexdigit (unat c div 256 mod 16))
     (hexdigit (unat c div 16 mod 16)) (hexdigit (unat c mod 16)) = Some (of_nat (unat c))"
    by (simp only: hex4_def hd option.case prod.case sum)
  then show ?thesis by simp
qed

lemma read_chars_unicode_escape:
  "read_chars (unicode_escape c @ r) = push c (read_chars r)"
  by (simp add: unicode_escape_def hex4_unicode_escape)

lemma read_chars_plain:
  "c \<noteq> 0x22 \<Longrightarrow> c \<noteq> 0x5C \<Longrightarrow> \<not> c < 0x20 \<Longrightarrow> read_chars (c # r) = push c (read_chars r)"
  by simp

lemma read_chars_quote_unit:
  "read_chars (quote_unit c @ r) = push c (read_chars r)"
  by (simp add: quote_unit_def read_chars_unicode_escape simple_escape_def)

lemma read_chars_surrogate:
  "is_leading_surrogate c \<or> is_trailing_surrogate c \<Longrightarrow>
   read_chars (c # r) = push c (read_chars r)"
  unfolding is_leading_surrogate_def is_trailing_surrogate_def
  by (rule read_chars_plain) (auto simp: word_le_nat_alt word_less_nat_alt)

lemma read_chars_close: "read_chars (0x22 # rest) = Some ([], rest)"
  by simp

lemma read_chars_quote_units:
  "read_chars (quote_units s @ 0x22 # rest) = Some (s, rest)"
  by (induction s rule: quote_units.induct)
    (simp_all add: read_chars_unicode_escape read_chars_quote_unit read_chars_surrogate push_def
       read_chars_close del: read_chars.simps)


subsection \<open>The object of the \<open>catch\<close> block\<close>

lemma gap_two: "replicate 2 c = [c, c]"
  by (simp add: numeral_eq_Suc)

lemma error_object_text:
  "JSON_stringify num (JObject [(k, JString v)]) 2 =
     0x7B # 0x0A # 0x20 # 0x20 # 0x22 # quote_units k @
     0x22 # 0x3A # 0x20 # 0x22 # quote_units v @ [0x22, 0x0A, 0x7D]"
  by (simp add: JSON_stringify_def wrap_def QuoteJSONString_def gap_two)

lemma read_error_object:
  "read_json (Suc (Suc (Suc n)))
     (0x7B # 0x0A # 0x20 # 0x20 # 0x22 # quote_units k @
      0x22 # 0x3A # 0x20 # 0x22 # quote_units v @ [0x22, 0x0A, 0x7D]) =
   Some (JObject [(k, JString v)], [])"
  by (simp add: skip_ws_def json_ws_def read_chars_quote_units push_def del: read_chars.simps)

lemma JSON_read_error_object:
  "JSON_read (JSON_stringify num (JObject [(k, JString v)]) 2) = Some (JObject [(k, JString v)])"
  unfolding error_object_text JSON_read_def
  by (simp add: read_error_object skip_ws_def del: read_json.simps)

section \<open>Verification of the API tester\<close>

lemma class_distinct: "success_class \<noteq> danger_class"
  by (simp add: success_class_def danger_class_def js_def)

lemmas stringify_eval = JSON_stringify_def wrap_def QuoteJSONString_def quote_unit_def
  is_leading_surrogate_def is_trailing_surrogate_def js_def gap_two

text \<open>
  Claim C1. When the API key or the email read from the form is empty, the submit handler
  shows the alert and sends no request.
\<close>

theorem submit_empty_field_alerts:
  assumes "apiKey = [] \<or> email = []"
  shows "requests (submit num net apiKey email st) = requests st \<and>
         alerts (submit num net apiKey email st) =
           alerts st @ [js ''Please enter both API key and email address'']"
  using assms by (auto simp: submit_def)

theorem submit_empty_field_alerts_witness:
  "requests (submit (\<lambda>n. n) net_offline [] (js ''a@b.co'') fresh_tester) = [] \<and>
   alerts (submit (\<lambda>n. n) net_offline [] (js ''a@b.co'') fresh_tester) =
     [js ''Please enter both API key and email address''] \<and>
   requests (submit (\<lambda>n. n) net_offline (js ''key-1'') [] fresh_tester) = [] \<and>
   requests (submit (\<lambda>n. n) net_offline (js ''key-1'') (js ''a@b.co'') fresh_tester) =
     [validate_request (\<lambda>n. n) (js ''key-1'') (js ''a@b.co'')]"
proof -
  have "js ''key-1'' \<noteq> []" "js ''a@b.co'' \<noteq> []" by (simp_all add: js_def)
  then show ?thesis
    using submit_empty_field_alerts[of "[]" "js ''a@b.co''" "\<lambda>n. n" net_offline fresh_tester]
      submit_empty_field_alerts[of "js ''key-1''" "[]" "\<lambda>n. n" net_offline fresh_tester]
    by (simp add: fresh_tester_def submit_def net_offline_def catch_block_def Let_def)
qed

text \<open>
  Claim C10. When the API key or the email is empty, the handler leaves the text and the
  class of the output element and the visibility of the result region as they were; no
  loading placeholder is written.
\<close>

theorem submit_empty_field_keeps_result_region:
  assumes "apiKey = [] \<or> email = []"
  shows "output_textContent (submit num net apiKey email st) = output_textContent st \<and>
         output_className (submit num net apiKey email st) = output_className st \<and>
         result_display (submit num net apiKey email st) = result_display st"
  using assms by (auto simp: submit_def)

theorem submit_empty_field_keeps_result_region_witness:
  "output_textContent (submit (\<lambda>n. n) net_offline (js ''key-1'') [] fresh_tester) = [] \<and>
   output_className (submit (\<lambda>n. n) net_offline (js ''key-1'') [] fresh_tester) =
     js ''bg-dark p-3 rounded'' \<and>
   result_display (submit (\<lambda>n. n) net_offline (js ''key-1'') [] fresh_tester) = js ''none'' \<and>
   result_display (submit (\<lambda>n. n) net_offline (js ''key-1'') (js ''a@b.co'') fresh_tester) =
     js ''block''"
proof -
  have "js ''key-1'' \<noteq> []" "js ''a@b.co'' \<noteq> []" by (simp_all add: js_def)
  then show ?thesis
    using submit_empty_field_keeps_result_region[of "js ''key-1''" "[]" "\<lambda>n. n" net_offline
        fresh_tester]
    by (simp add: fresh_tester_def submit_def net_offline_def catch_block_def Let_def)
qed

text \<open>
  Claim C6. When the request is answered and the body parses as JSON, the output text is
  the body pretty-printed with an indent of two; the output has the success class exactly
  when the status is from 200 to 299 and the error class exactly when it is not, whatever
  the body.
\<close>

theorem submit_renders_json_response:
  assumes "apiKey \<noteq> []" "email \<noteq> []"
    and "net (validate_request num apiKey email) = Responded r" "json_result r = BodyJson v"
  shows "output_textContent (submit num net apiKey email st) = JSON_stringify num v 2 \<and>
         (output_className (submit num net apiKey email st) = success_class \<longleftrightarrow>
            200 \<le> status r \<and> status r \<le> 299) \<and>
         (output_className (submit num net apiKey email st) = danger_class \<longleftrightarrow>
            \<not> (200 \<le> status r \<and> status r \<le> 299))"
  using assms class_distinct
  by (auto simp: submit_def Let_def response_ok_def)

lemma reply_facts:
  "output_textContent (submit (\<lambda>n. n) (net_reply 200 (JObject [(js ''valid'', JBool True)]))
      (js ''key-1'') (js ''a@b.co'') fresh_tester) =
     0x7B # 0x0A # js ''  '' @ 0x22 # js ''valid'' @ 0x22 # js '': true'' @ [0x0A, 0x7D]"
  "output_className (submit (\<lambda>n. n) (net_reply 200 (JObject [(js ''valid'', JBool True)]))
      (js ''key-1'') (js ''a@b.co'') fresh_tester) = success_class"
  "output_className (submit (\<lambda>n. n) (net_reply 404 (JObject [(js ''valid'', JBool True)]))
      (js ''key-1'') (js ''a@b.co'') fresh_tester) = danger_class"
  by (simp_all add: submit_def net_reply_def fresh_tester_def response_ok_def Let_def
      stringify_eval)

theorem submit_renders_json_response_witness:
  "output_textContent (submit (\<lambda>n. n) (net_reply 200 (JObject [(js ''valid'', JBool True)]))
      (js ''key-1'') (js ''a@b.co'') fresh_tester) =
     0x7B # 0x0A # js ''  '' @ 0x22 # js ''valid'' @ 0x22 # js '': true'' @ [0x0A, 0x7D] \<and>
   output_className (submit (\<lambda>n. n) (net_reply 200 (JObject [(js ''valid'', JBool True)]))
      (js ''key-1'') (js ''a@b.co'') fresh_tester) = success_class \<and>
   output_className (submit (\<lambda>n. n) (net_reply 404 (JObject [(js ''valid'', JBool True)]))
      (js ''key-1'') (js ''a@b.co'') fresh_tester) = danger_class"
proof -
  have ne: "js ''key-1'' \<noteq> []" "js ''a@b.co'' \<noteq> []" by (simp_all add: js_def)
  have n: "net_reply 200 (JObject [(js ''valid'', JBool True)])
      (validate_request (\<lambda>n. n) (js ''key-1'') (js ''a@b.co'')) =
      Responded \<lparr>status = 200, json_result = BodyJson (JObject [(js ''valid'', JBool True)])\<rparr>"
    by (simp add: net_reply_def)
  have b: "json_result \<lparr>status = 200, json_result = BodyJson (JObject [(js ''valid'', JBool True)])\<rparr>
      = BodyJson (JObject [(js ''valid'', JBool True)])"
    by simp
  show ?thesis
    using submit_renders_json_response[where num = "\<lambda>n. n" and st = fresh_tester
        and net = "net_reply 200 (JObject [(js ''valid'', JBool True)])", OF ne n b]
      reply_facts
    by simp
qed

text \<open>
  Claim C7. When \<open>fetch\<close> rejects, or the body of the response fails to parse, with an error
  of message \<open>m\<close>, the output text is valid JSON: an object whose only key \<open>error\<close> holds the
  string \<open>Request failed: \<close> followed by \<open>m\<close>; the output has the error class.
\<close>

theorem submit_renders_failure:
  assumes "apiKey \<noteq> []" "email \<noteq> []"
    and "net (validate_request num apiKey email) = Rejected m \<or>
         (\<exists>r. net (validate_request num apiKey email) = Responded r \<and> json_result r = BodyFails m)"
  shows "JSON_read (output_textContent (submit num net apiKey email st)) =
           Some (JObject [(js ''error'', JString (js ''Request failed: '' @ m))]) \<and>
         sublist m (js ''Request failed: '' @ m) \<and>
         output_className (submit num net apiKey email st) = danger_class"
proof -
  have "submit num net apiKey email st =
      catch_block num m (st\<lparr>output_textContent := js ''Testing API...'',
        result_display := js ''block'',
        requests := requests st @ [validate_request num apiKey email]\<rparr>)"
    using assms by (auto simp: submit_def Let_def)
  then show ?thesis
    by (simp add: catch_block_def JSON_read_error_object)
qed


lemma offline_facts:
  "output_textContent (submit (\<lambda>n. n) net_offline (js ''key-1'') (js ''a@b.co'') fresh_tester) =
     0x7B # 0x0A # js ''  '' @ 0x22 # js ''error'' @ 0x22 # js '': '' @
     0x22 # js ''Request failed: Failed to fetch'' @ [0x22, 0x0A, 0x7D]"
  "output_className (submit (\<lambda>n. n) net_garbled (js ''key-1'') (js ''a@b.co'') fresh_tester) =
     danger_class"
  by (simp_all add: submit_def net_offline_def net_garbled_def fresh_tester_def catch_block_def
      Let_def stringify_eval)

theorem submit_renders_failure_witness:
  "output_textContent (submit (\<lambda>n. n) net_offline (js ''key-1'') (js ''a@b.co'') fresh_tester) =
     0x7B # 0x0A # js ''  '' @ 0x22 # js ''error'' @ 0x22 # js '': '' @
     0x22 # js ''Request failed: Failed to fetch'' @ [0x22, 0x0A, 0x7D] \<and>
   JSON_read (output_textContent
       (submit (\<lambda>n. n) net_offline (js ''key-1'') (js ''a@b.co'') fresh_tester)) =
     Some (JObject [(js ''error'', JString (js ''Request failed: '' @ js ''Failed to fetch''))]) \<and>
   output_className (submit (\<lambda>n. n) net_garbled (js ''key-1'') (js ''a@b.co'') fresh_tester) =
     danger_class"
proof -
  have ne: "js ''key-1'' \<noteq> []" "js ''a@b.co'' \<noteq> []" by (simp_all add: js_def)
  have n: "net_offline (validate_request (\<lambda>n. n) (js ''key-1'') (js ''a@b.co'')) =
      Rejected (js ''Failed to fetch'') \<or>
      (\<exists>r. net_offline (validate_request (\<lambda>n. n) (js ''key-1'') (js ''a@b.co'')) = Responded r \<and>
        json_result r = BodyFails (js ''Failed to fetch''))"
    by (simp add: net_offline_def)
  show ?thesis
    using submit_renders_failure[where num = "\<lambda>n. n" and st = fresh_tester
        and net = net_offline, OF ne n]
      offline_facts
    by simp
qed

section \<open>Verification of the code-block copier\<close>

lemma icons_differ: "check_icon \<noteq> copy_icon"
  by (simp add: check_icon_def copy_icon_def js_def)

lemma create_button_classes:
  "button_classes (create_button t) =
     [js ''btn'', js ''btn-sm'', js ''btn-outline-secondary'', js ''position-absolute'',
      js ''top-0'', js ''end-0'', js ''m-2'']"
  by (simp add: create_button_def class_tokens_def is_ascii_ws_def js_def)

lemma advance_before:
  assumes "\<forall>tm\<in>set (timers s). t < due tm"
  shows "advance t s = s\<lparr>clock := max (clock s) t\<rparr>"
proof -
  have "filter (\<lambda>tm. due tm \<le> t) (timers s) = []"
    using assms by (auto simp: filter_empty_conv)
  moreover have "filter (\<lambda>tm. \<not> due tm \<le> t) (timers s) = timers s"
    using assms by (auto simp: filter_id_conv)
  ultimately show ?thesis by (simp add: advance_def)
qed

lemma style_tokens_differ: "js ''btn-outline-success'' \<noteq> js ''btn-outline-secondary''"
  by (simp add: js_def)

lemma copy_single_click:
  assumes "timers s = []"
  shows "innerHTML (copyButton_click code Written s) = check_icon"
    and "js ''btn-outline-success'' \<in> set (button_classes (copyButton_click code Written s))"
    and "t < clock s + 2000 \<Longrightarrow>
           innerHTML (advance t (copyButton_click code Written s)) = check_icon"
    and "clock s + 2000 \<le> t \<Longrightarrow>
           innerHTML (advance t (copyButton_click code Written s)) = innerHTML s \<and>
           js ''btn-outline-success'' \<notin>
             set (button_classes (advance t (copyButton_click code Written s))) \<and>
           js ''btn-outline-secondary'' \<in>
             set (button_classes (advance t (copyButton_click code Written s)))"
  using assms style_tokens_differ
  by (auto simp: copyButton_click_def on_copied_def advance_def fire_def Let_def token_add_def
      token_remove_def)

lemma token_steps:
  "token_add (js ''btn-outline-success'')
     (token_remove (js ''btn-outline-secondary'') (button_classes (create_button t))) = confirm_classes"
  "token_add (js ''btn-outline-success'') (token_remove (js ''btn-outline-secondary'') confirm_classes) = confirm_classes"
  "token_add (js ''btn-outline-secondary'') (token_remove (js ''btn-outline-success'') confirm_classes) = idle_classes"
  "token_add (js ''btn-outline-secondary'') (token_remove (js ''btn-outline-success'') idle_classes) = idle_classes"
  by (simp_all add: create_button_classes confirm_classes_def idle_classes_def token_add_def token_remove_def js_def)

lemma first_click:
  "copyButton_click code Written (create_button 0) =
     \<lparr>clock = 0, innerHTML = check_icon, button_classes = confirm_classes, clipboard = code,
      timers = [\<lparr>due = 2000, originalHTML = copy_icon\<rparr>], console_errors = []\<rparr>"
  using token_steps(1)[of 0]
  by (simp add: copyButton_click_def on_copied_def Let_def create_button_def)

lemma second_click:
  "copyButton_click code Written (advance 500 (copyButton_click code Written (create_button 0))) =
     \<lparr>clock = 500, innerHTML = check_icon, button_classes = confirm_classes, clipboard = code,
      timers = [\<lparr>due = 2000, originalHTML = copy_icon\<rparr>, \<lparr>due = 2500, originalHTML = check_icon\<rparr>],
      console_errors = []\<rparr>"
  unfolding first_click
  by (simp add: advance_def copyButton_click_def on_copied_def Let_def token_steps)

lemma at_2000:
  "advance 2000 (copyButton_click code Written (advance 500
       (copyButton_click code Written (create_button 0)))) =
     \<lparr>clock = 2000, innerHTML = copy_icon, button_classes = idle_classes, clipboard = code,
      timers = [\<lparr>due = 2500, originalHTML = check_icon\<rparr>], console_errors = []\<rparr>"
  unfolding second_click
  by (simp add: advance_def fire_def Let_def token_steps)

lemma at_2500:
  "advance 2500 (copyButton_click code Written (advance 500
       (copyButton_click code Written (create_button 0)))) =
     \<lparr>clock = 2500, innerHTML = check_icon, button_classes = idle_classes, clipboard = code,
      timers = [], console_errors = []\<rparr>"
  unfolding second_click
  by (simp add: advance_def fire_def Let_def token_steps)

text \<open>
  Claim C9. After a clipboard write that succeeded, the control shows the confirmation
  icon and the success style at once, and goes back to its original icon and style 2000
  milliseconds later and not before. For a write with no earlier confirmation pending
  this is \<open>copy_single_click\<close>. The script breaks it for a second write within the 2000
  milliseconds: with writes at 0 and at 500, the timer of the first takes the second
  confirmation away at 2000, and the timer of the second, which captured the confirmation
  icon as \<open>originalHTML\<close>, puts the confirmation icon back at 2500, where it stays.
\<close>

theorem copy_twice_keeps_check_icon:
  "innerHTML (advance 2000 (copyButton_click code Written (advance 500
       (copyButton_click code Written (create_button 0))))) = copy_icon \<and>
   innerHTML (advance 2500 (copyButton_click code Written (advance 500
       (copyButton_click code Written (create_button 0))))) = check_icon \<and>
   timers (advance 2500 (copyButton_click code Written (advance 500
       (copyButton_click code Written (create_button 0))))) = [] \<and>
   innerHTML (create_button 0) = copy_icon \<and> check_icon \<noteq> copy_icon"
  unfolding at_2000 at_2500 using icons_differ by (simp add: create_button_def)

end
